theory Spec2Isabelle
  imports Main "HOL-Library.AList" "HOL-Library.Multiset" "HOL-Library.Sublist"
    "HOL-Library.Log_Nat"
begin

section \<open>The sync-handler cache index\<close>

text \<open>
  A shallow embedding of the \<open>cacheIndex\<close> object of the sync-handler cache module.
  The module keeps one list of index entries under the store key \<open>records-list\<close> and
  removes record payloads, which live in the same store under their own keys.
\<close>

subsection \<open>Data model\<close>

text \<open>
  An index entry as \<open>addItem\<close> builds it: \<open>{ key, timestamp }\<close> plus the field
  \<open>pageSeriesKey\<close>, which is only present when it was set.
\<close>

record entry =
  key :: string
  timestamp :: int
  pageSeriesKey :: "string option"

text \<open>
  The persistent store (localforage). The value under \<open>records-list\<close> is only ever written
  by this module and is a list of entries; \<open>None\<close> is the store's \<open>null\<close> for a key that
  was never set. Every other key holds an opaque payload.
\<close>

record 'p store =
  records_list :: "entry list option"
  items :: "(string \<times> 'p) list"

text \<open>The argument and result of \<open>removeRecordsByList\<close>, \<open>dropElders\<close>, \<open>pickPageSeries\<close>.\<close>

record record_lists =
  removedRecords :: "entry list"
  retainedRecords :: "entry list"

subsection \<open>Promises and store failures\<close>

text \<open>
  The outcome of a promise: fulfilled with a value, rejected with an error, or never
  settled (neither \<open>resolve\<close> nor \<open>reject\<close> is ever called).
\<close>

datatype error = StoreError

datatype 'a promise = Resolved 'a | Rejected error | Pending

text \<open>
  The store is injected and may fail. Which of its calls fail is a parameter of every
  operation: \<open>flt c\<close> says that the store call \<open>c\<close> is rejected (and then applies nothing).
\<close>

datatype call = GetItem string | SetItem string | RemoveItem string | Keys

type_synonym faults = "call \<Rightarrow> bool"

definition no_faults :: faults where
  "no_faults = (\<lambda>c. False)"

text \<open>\<open>p.then(f)\<close> with a handler that returns a plain value, and with one that calls the store.\<close>

fun then_val :: "'a promise \<times> 's \<Rightarrow> ('a \<Rightarrow> 'b) \<Rightarrow> 'b promise \<times> 's" where
  "then_val (Resolved v, s) f = (Resolved (f v), s)"
| "then_val (Rejected e, s) f = (Rejected e, s)"
| "then_val (Pending, s) f = (Pending, s)"

fun then_do :: "'a promise \<times> 's \<Rightarrow> ('a \<Rightarrow> 's \<Rightarrow> 'b promise \<times> 's) \<Rightarrow> 'b promise \<times> 's" where
  "then_do (Resolved v, s) f = f v s"
| "then_do (Rejected e, s) f = (Rejected e, s)"
| "then_do (Pending, s) f = (Pending, s)"

text \<open>
  An element of the array given to \<open>Promise.all\<close>: a promise, or a plain value
  (here only \<open>undefined\<close>), which counts as already fulfilled.
\<close>

datatype 'a awaitable = Undefined | Thenable "'a promise"

fun settle :: "'a awaitable \<Rightarrow> 'a option promise" where
  "settle Undefined = Resolved None"
| "settle (Thenable p) = map_promise Some p"

text \<open>
  \<open>Promise.all\<close>: rejected as soon as one element is rejected, fulfilled when all are
  fulfilled, and never settled otherwise.
\<close>

fun promise_all :: "'a awaitable list \<Rightarrow> 'a option list promise" where
  "promise_all [] = Resolved []"
| "promise_all (a # as) =
     (case settle a of
        Rejected e \<Rightarrow> Rejected e
      | Pending \<Rightarrow> (case promise_all as of Rejected e \<Rightarrow> Rejected e | _ \<Rightarrow> Pending)
      | Resolved v \<Rightarrow> map_promise ((#) v) (promise_all as))"

subsection \<open>Module constants and the store calls the module makes\<close>

definition RECORDS_LIST_KEY :: string where
  "RECORDS_LIST_KEY = ''records-list''"

text \<open>\<open>\w\<close> of a JavaScript regular expression without the unicode flag.\<close>

definition word_char :: "char \<Rightarrow> bool" where
  "word_char c \<longleftrightarrow>
     c \<in> set ''abcdefghijklmnopqrstuvwxyzABCDEFGHIJKLMNOPQRSTUVWXYZ0123456789_''"

text \<open>\<open>SYNC_RECORD_REGEX = /^sync-record-\w+$/\<close>, tested on the whole key.\<close>

definition isSyncRecordKey :: "string \<Rightarrow> bool" where
  "isSyncRecordKey k \<longleftrightarrow>
     take (length ''sync-record-'') k = ''sync-record-'' \<and>
     drop (length ''sync-record-'') k \<noteq> [] \<and>
     list_all word_char (drop (length ''sync-record-'') k)"

text \<open>\<open>LIFETIME = '2 days'\<close>; a lifetime is a number of milliseconds or a string for \<open>ms\<close>.\<close>

datatype lifetime = Millis int | Natural string

definition LIFETIME :: lifetime where
  "LIFETIME = Natural ''2 days''"

text \<open>\<open>localforage.getItem( RECORDS_LIST_KEY )\<close>\<close>

definition lf_getRecords :: "faults \<Rightarrow> 'p store \<Rightarrow> entry list option promise \<times> 'p store" where
  "lf_getRecords flt s =
     (if flt (GetItem RECORDS_LIST_KEY) then (Rejected StoreError, s)
      else (Resolved (records_list s), s))"

text \<open>\<open>localforage.setItem( RECORDS_LIST_KEY, v )\<close>, fulfilled with the value written.\<close>

definition lf_setRecords :: "faults \<Rightarrow> entry list \<Rightarrow> 'p store \<Rightarrow> entry list promise \<times> 'p store" where
  "lf_setRecords flt v s =
     (if flt (SetItem RECORDS_LIST_KEY) then (Rejected StoreError, s)
      else (Resolved v, s\<lparr>records_list := Some v\<rparr>))"

text \<open>\<open>localforage.removeItem( k )\<close>\<close>

definition lf_removeItem :: "faults \<Rightarrow> string \<Rightarrow> 'p store \<Rightarrow> unit promise \<times> 'p store" where
  "lf_removeItem flt k s =
     (if flt (RemoveItem k) then (Rejected StoreError, s)
      else if k = RECORDS_LIST_KEY then (Resolved (), s\<lparr>records_list := None\<rparr>)
      else (Resolved (), s\<lparr>items := AList.delete k (items s)\<rparr>))"

text \<open>\<open>localforage.keys()\<close>\<close>

definition lf_keys :: "faults \<Rightarrow> 'p store \<Rightarrow> string list promise \<times> 'p store" where
  "lf_keys flt s =
     (if flt Keys then (Rejected StoreError, s)
      else (Resolved ((case records_list s of None \<Rightarrow> [] | Some v \<Rightarrow> [RECORDS_LIST_KEY])
                      @ map fst (items s)), s))"

text \<open>What a store holds under a payload key, and the index read as a sequence.\<close>

definition payload :: "'p store \<Rightarrow> string \<Rightarrow> 'p option" where
  "payload s k = map_of (items s) k"

definition index_of :: "'p store \<Rightarrow> entry list" where
  "index_of s = (case records_list s of None \<Rightarrow> [] | Some rs \<Rightarrow> rs)"

subsection \<open>Numbers and the clock\<close>

text \<open>
  Timestamps, lifetimes and clock readings are JavaScript numbers that hold integers.
  \<open>to_double x\<close> is the double nearest to the integer \<open>x\<close>, ties to even: the result of an
  arithmetic operation whose exact value is \<open>x\<close>. Integers below \<open>2 ^ 53\<close> in magnitude are
  doubles themselves. (An exact value beyond the range of doubles gives an infinity in the
  code and an integer beyond every double here; the result is only ever compared with a
  timestamp, and the two compare alike.)
\<close>

definition to_double :: "int \<Rightarrow> int" where
  "to_double x =
     (if \<bar>x\<bar> < 2 ^ 53 then x
      else
        let e = nat (bitlen \<bar>x\<bar> - 53);
            q = \<bar>x\<bar> div 2 ^ e;
            r = \<bar>x\<bar> mod 2 ^ e;
            q' = (if 2 * r > 2 ^ e \<or> (2 * r = 2 ^ e \<and> odd q) then q + 1 else q)
        in sgn x * (q' * 2 ^ e))"

text \<open>
  The readings of \<open>Date.now()\<close> during one call of an operation: \<open>clock i\<close> is what the
  reading number \<open>i\<close> returns, counting from \<open>0\<close>.
\<close>

type_synonym clock = "nat \<Rightarrow> int"

subsection \<open>The lodash functions used\<close>

text \<open>
  \<open>filter\<close> and \<open>difference\<close> accept \<open>null\<close> and give the empty array for it.
  \<open>difference\<close> compares by SameValueZero, which for the entries is object identity; the
  model compares the elements it is given by value. In \<open>dropMatches\<close> and \<open>pickPageSeries\<close>
  both arguments come from one read of the index and the second is \<open>filter\<close> of the first
  by a predicate on the entry's fields, where the two agree. In \<open>dropElders\<close> the predicate
  also reads the clock, and the elements are objects there: entries paired with their
  position in the array.
\<close>

definition lodash_filter :: "'a list option \<Rightarrow> ('a \<Rightarrow> bool) \<Rightarrow> 'a list" where
  "lodash_filter collection p = (case collection of None \<Rightarrow> [] | Some xs \<Rightarrow> filter p xs)"

definition difference :: "'a list option \<Rightarrow> 'a list \<Rightarrow> 'a list" where
  "difference array vals =
     (case array of None \<Rightarrow> [] | Some xs \<Rightarrow> filter (\<lambda>x. x \<notin> set vals) xs)"

definition negate :: "('a \<Rightarrow> bool) \<Rightarrow> 'a \<Rightarrow> bool" where
  "negate p = (\<lambda>x. \<not> p x)"

text \<open>\<open>matchesProperty( 'key', k )\<close>\<close>

definition matchesProperty_key :: "string \<Rightarrow> entry \<Rightarrow> bool" where
  "matchesProperty_key k r \<longleftrightarrow> key r = k"

definition omit :: "(string \<rightharpoonup> 'v) \<Rightarrow> string \<Rightarrow> (string \<rightharpoonup> 'v)" where
  "omit obj field = obj(field := None)"

subsection \<open>cacheIndex\<close>

definition getAll :: "faults \<Rightarrow> 'p store \<Rightarrow> entry list option promise \<times> 'p store" where
  "getAll flt s = lf_getRecords flt s"

definition dropMatches :: "string \<Rightarrow> entry list option \<Rightarrow> entry list" where
  "dropMatches k records = lodash_filter records (negate (matchesProperty_key k))"

text \<open>
  The promise built around the chain is resolved with the chain's value and rejected with
  its error.
\<close>

definition getAllExcluding :: "faults \<Rightarrow> string \<Rightarrow> 'p store \<Rightarrow> entry list promise \<times> 'p store" where
  "getAllExcluding flt k s = then_val (getAll flt s) (dropMatches k)"

text \<open>JavaScript truthiness of the argument \<open>pageSeriesKey\<close>: a string, or \<open>null\<close> by default.\<close>

fun truthy :: "string option \<Rightarrow> bool" where
  "truthy None = False"
| "truthy (Some str) = (str \<noteq> [])"

text \<open>\<open>now\<close> is the value of \<open>Date.now()\<close> during the call.\<close>

definition addItem ::
  "faults \<Rightarrow> int \<Rightarrow> string \<Rightarrow> string option \<Rightarrow> 'p store \<Rightarrow> entry list promise \<times> 'p store" where
  "addItem flt now k psk s =
     then_do (getAllExcluding flt k s) (\<lambda>records.
       let record0 = \<lparr>key = k, timestamp = now, pageSeriesKey = None\<rparr>;
           record = (if truthy psk then record0\<lparr>pageSeriesKey := psk\<rparr> else record0)
       in lf_setRecords flt (records @ [record]))"

definition removeItem :: "faults \<Rightarrow> string \<Rightarrow> 'p store \<Rightarrow> entry list promise \<times> 'p store" where
  "removeItem flt k s =
     then_do (getAllExcluding flt k s) (\<lambda>records. lf_setRecords flt records)"

text \<open>
  \<open>filter\<close> calls its callback once for every element of the array, in order, and the
  callback reads \<open>Date.now()\<close>: the element at position \<open>i\<close> is tested with reading \<open>i\<close> of
  the clock. The array read from the store holds one object for every position; the
  position stands for the identity of the object, by which \<open>difference\<close> compares.
\<close>

definition dropElders :: "clock \<Rightarrow> int \<Rightarrow> entry list option \<Rightarrow> record_lists" where
  "dropElders clock lifetime records =
     (let objects = map_option (List.enumerate 0) records;
          removed = lodash_filter objects
                      (\<lambda>(i, rec). to_double (clock i - lifetime) > timestamp rec)
      in \<lparr>removedRecords = map snd removed,
          retainedRecords = map snd (difference objects removed)\<rparr>)"

definition dropOlderThan :: "faults \<Rightarrow> clock \<Rightarrow> int \<Rightarrow> 'p store \<Rightarrow> record_lists promise \<times> 'p store" where
  "dropOlderThan flt clock lifetime s = then_val (getAll flt s) (dropElders clock lifetime)"

text \<open>The store calls \<open>removeItem( k )\<close> issued for each key of a list, in order.\<close>

fun remove_each :: "faults \<Rightarrow> string list \<Rightarrow> 'p store \<Rightarrow> unit promise list \<times> 'p store" where
  "remove_each flt [] s = ([], s)"
| "remove_each flt (k # ks) s =
     (let (p, s1) = lf_removeItem flt k s;
          (ps, s2) = remove_each flt ks s1
      in (p # ps, s2))"

text \<open>
  The executor returns early on an empty \<open>removedRecords\<close>, without calling \<open>resolve\<close>.
  The callback of \<open>removedRecords.map\<close> has a block body with no \<open>return\<close>: each removal is
  issued and the array holds \<open>undefined\<close> in its place. The executor takes \<open>resolve\<close> only,
  so a rejection of \<open>Promise.all\<close> settles nothing.
\<close>

definition removeRecordsByList :: "faults \<Rightarrow> record_lists \<Rightarrow> 'p store \<Rightarrow> unit promise \<times> 'p store" where
  "removeRecordsByList flt data s =
     (if removedRecords data = [] then (Pending, s)
      else
        let (removals, s1) = remove_each flt (map key (removedRecords data)) s;
            droppedPromises = map (\<lambda>p. Undefined) removals;
            (recordsListPromise, s2) = lf_setRecords flt (retainedRecords data) s1
        in (case promise_all (droppedPromises @ [Thenable recordsListPromise]) of
              Resolved vs \<Rightarrow> (Resolved (), s2)
            | Rejected e \<Rightarrow> (Pending, s2)
            | Pending \<Rightarrow> (Pending, s2)))"

text \<open>
  \<open>ms\<close> is the duration parser of the package of that name, a parameter here. A missing
  argument takes the default \<open>LIFETIME\<close>.
\<close>

definition pruneRecordsFrom ::
  "(string \<Rightarrow> int) \<Rightarrow> faults \<Rightarrow> clock \<Rightarrow> lifetime option \<Rightarrow> 'p store \<Rightarrow> unit promise \<times> 'p store" where
  "pruneRecordsFrom ms flt clock arg s =
     (let lifetime = (case (case arg of None \<Rightarrow> LIFETIME | Some l \<Rightarrow> l) of
                        Millis n \<Rightarrow> n
                      | Natural str \<Rightarrow> ms str)
      in then_do (dropOlderThan flt clock lifetime s) (removeRecordsByList flt))"

definition pickPageSeries :: "string \<Rightarrow> entry list option \<Rightarrow> record_lists" where
  "pickPageSeries psk records =
     (let removed = lodash_filter records (\<lambda>record. pageSeriesKey record = Some psk)
      in \<lparr>removedRecords = removed, retainedRecords = difference records removed\<rparr>)"

text \<open>
  \<open>generateKey\<close> is imported from the module's parent and is a parameter here. The promise
  is built with \<open>resolve\<close> only: it is fulfilled when the chain is, and never settled
  otherwise.
\<close>

definition clearPageSeries ::
  "((string \<rightharpoonup> 'v) \<Rightarrow> string) \<Rightarrow> faults \<Rightarrow> (string \<rightharpoonup> 'v) \<Rightarrow> 'p store \<Rightarrow> unit promise \<times> 'p store" where
  "clearPageSeries generateKey flt reqParams s =
     (let psk = generateKey (omit reqParams ''next_page'')
      in case then_do (then_val (getAll flt s) (pickPageSeries psk)) (removeRecordsByList flt) of
           (Resolved v, s') \<Rightarrow> (Resolved v, s')
         | (Rejected e, s') \<Rightarrow> (Pending, s')
         | (Pending, s') \<Rightarrow> (Pending, s'))"

text \<open>
  \<open>.then( debug( ... ) )\<close> passes \<open>undefined\<close> as the handler, so the promise of
  \<open>Promise.all\<close> is returned as it is.
\<close>

definition clearAll :: "faults \<Rightarrow> 'p store \<Rightarrow> unit option list promise \<times> 'p store" where
  "clearAll flt s =
     then_do (lf_keys flt s) (\<lambda>keys s.
       let syncHandlerKeys = filter isSyncRecordKey keys;
           (itemsPromises, s1) = remove_each flt syncHandlerKeys s;
           (recordsPromise, s2) = lf_removeItem flt RECORDS_LIST_KEY s1
       in (promise_all (map Thenable itemsPromises @ [Thenable recordsPromise]), s2))"

text \<open>
  A sequence of \<open>addItem\<close> calls, each made after the one before has settled; every call
  comes with the store failures it meets and its value of \<open>Date.now()\<close>.
\<close>

fun addItems :: "(faults \<times> int \<times> string \<times> string option) list \<Rightarrow> 'p store \<Rightarrow> 'p store" where
  "addItems [] s = s"
| "addItems ((flt, now, k, psk) # calls) s = addItems calls (snd (addItem flt now k psk s))"

section \<open>Reading the index\<close>

lemma getAll_ok:
  "\<not> flt (GetItem RECORDS_LIST_KEY) \<Longrightarrow> getAll flt s = (Resolved (records_list s), s)"
  by (simp add: getAll_def lf_getRecords_def)

lemma getAll_fault:
  "flt (GetItem RECORDS_LIST_KEY) \<Longrightarrow> getAll flt s = (Rejected StoreError, s)"
  by (simp add: getAll_def lf_getRecords_def)

lemma lodash_filter_index: "lodash_filter (records_list s) p = filter p (index_of s)"
  by (simp add: lodash_filter_def index_of_def split: option.splits)

lemma difference_filter:
  "difference (records_list s) (filter p (index_of s)) = filter (\<lambda>x. \<not> p x) (index_of s)"
  by (auto simp: difference_def index_of_def split: option.splits intro: filter_cong)

lemma dropMatches_index:
  "dropMatches k (records_list s) = filter (\<lambda>r. key r \<noteq> k) (index_of s)"
  by (simp add: dropMatches_def lodash_filter_index negate_def matchesProperty_key_def)

lemma getAllExcluding_ok:
  "\<not> flt (GetItem RECORDS_LIST_KEY) \<Longrightarrow>
   getAllExcluding flt k s = (Resolved (filter (\<lambda>r. key r \<noteq> k) (index_of s)), s)"
  by (simp add: getAllExcluding_def getAll_ok dropMatches_index)

lemma getAllExcluding_fault:
  "flt (GetItem RECORDS_LIST_KEY) \<Longrightarrow> getAllExcluding flt k s = (Rejected StoreError, s)"
  by (simp add: getAllExcluding_def getAll_fault)

lemma to_double_small: "\<bar>x\<bar> < 2 ^ 53 \<Longrightarrow> to_double x = x"
  by (simp add: to_double_def)

lemma to_double_magnitude:
  assumes "2 ^ 53 \<le> \<bar>x\<bar>"
  shows "\<exists>m. 2 ^ 53 \<le> m \<and> to_double x = sgn x * m"
proof -
  let ?a = "\<bar>x\<bar>"
  let ?e = "nat (bitlen ?a - 53)"
  let ?q = "?a div 2 ^ ?e"
  let ?r = "?a mod 2 ^ ?e"
  let ?q' = "if 2 * ?r > 2 ^ ?e \<or> (2 * ?r = 2 ^ ?e \<and> odd ?q) then ?q + 1 else ?q"
  have pos: "0 < ?a"
    using assms by (smt (verit) zero_less_power)
  have b: "2 ^ nat (bitlen ?a - 1) \<le> ?a" "?a < 2 ^ nat (bitlen ?a)"
    using bitlen_bounds [OF pos] by simp_all
  have "(2::int) ^ 53 < 2 ^ nat (bitlen ?a)"
    using assms b(2) by linarith
  then have "53 < nat (bitlen ?a)"
    by (rule power_less_imp_less_exp [rotated]) simp
  then have e: "nat (bitlen ?a - 1) = 52 + ?e" "1 \<le> ?e"
    by linarith+
  have "(2::int) ^ 52 * 2 ^ ?e \<le> ?a"
    using b(1) by (simp add: e(1) power_add)
  then have "((2::int) ^ 52 * 2 ^ ?e) div 2 ^ ?e \<le> ?q"
    by (intro zdiv_mono1) simp_all
  then have q: "2 ^ 52 \<le> ?q"
    by simp
  have "(2::int) ^ 1 \<le> 2 ^ ?e"
    using e(2) by (intro power_increasing) simp_all
  then have "(2::int) ^ 52 * 2 \<le> ?q * 2 ^ ?e"
    using q by (intro mult_mono) simp_all
  then have A: "(2::int) ^ 53 \<le> ?q * 2 ^ ?e"
    by simp
  have B: "?q * 2 ^ ?e \<le> ?q' * 2 ^ ?e"
    by (intro mult_right_mono) simp_all
  from A B have "2 ^ 53 \<le> ?q' * 2 ^ ?e"
    by (rule order_trans)
  moreover have "to_double x = sgn x * (?q' * 2 ^ ?e)"
    using assms by (simp add: to_double_def Let_def)
  ultimately show ?thesis
    by blast
qed

text \<open>Against a timestamp that is a safe integer, rounding does not change the comparison.\<close>

lemma to_double_greater:
  assumes "\<bar>t\<bar> < 2 ^ 53"
  shows "to_double d > t \<longleftrightarrow> d > t"
proof (cases "\<bar>d\<bar> < 2 ^ 53")
  case True
  then show ?thesis by (simp add: to_double_small)
next
  case False
  then obtain m where m: "2 ^ 53 \<le> m" "to_double d = sgn d * m"
    using to_double_magnitude [of d] by auto
  show ?thesis
  proof (cases "0 < d")
    case True
    then have "d \<ge> 2 ^ 53" using False by simp
    moreover have "to_double d = m" using True m(2) by simp
    ultimately show ?thesis using assms m(1) by linarith
  next
    case neg: False
    then have "d \<le> - (2 ^ 53)" using False by simp
    moreover have "d < 0" using neg False by (cases "d = 0") simp_all
    then have "to_double d = - m" using m(2) by simp
    ultimately show ?thesis using assms m(1) by linarith
  qed
qed

lemma to_double_rounds_to_even: "to_double (2 ^ 53 - (- 1)) = 2 ^ 53"
  by code_simp

lemma enumerate_swap:
  "List.enumerate 0 xs = map (\<lambda>(x, i). (i, x)) (zip xs [0..<length xs])"
proof -
  have "zip [0..<length xs] xs = map (\<lambda>(x, i). (i, x)) (zip xs [0..<length xs])"
    by (rule zip_commute)
  then show ?thesis
    by (simp add: enumerate_eq_zip)
qed

lemma enumerate_filter_nths:
  assumes "\<forall>i < length xs. Q i (xs ! i) \<longleftrightarrow> i \<in> A"
  shows "map snd (filter (\<lambda>(i, r). Q i r) (List.enumerate 0 xs)) = nths xs A"
proof -
  have "filter ((\<lambda>(i, r). Q i r) \<circ> (\<lambda>(x, i). (i, x))) (zip xs [0..<length xs]) =
        filter (\<lambda>p. snd p \<in> A) (zip xs [0..<length xs])"
    using assms by (intro filter_cong) (auto simp: in_set_zip)
  then show ?thesis
    by (simp add: enumerate_swap nths_def filter_map comp_def case_prod_unfold)
qed

lemma enumerate_filter_snd:
  "map snd (filter (\<lambda>(i, r). P r) (List.enumerate 0 xs)) = filter P xs"
proof -
  have "map snd (List.enumerate 0 xs) = xs"
    by (simp add: enumerate_eq_zip)
  then have "filter P (map snd (List.enumerate 0 xs)) = filter P xs"
    by simp
  then show ?thesis
    by (simp only: filter_map comp_def case_prod_unfold)
qed

lemma nths_filter:
  assumes "\<forall>i < length xs. i \<in> A \<longleftrightarrow> P (xs ! i)"
  shows "nths xs A = filter P xs"
  using enumerate_filter_nths [of xs "\<lambda>i r. P r" A] assms
  by (simp add: enumerate_filter_snd)

lemma mset_nths_partition: "mset (nths xs A) + mset (nths xs (- A)) = mset xs"
proof -
  let ?M = "mset (zip xs [0..<length xs])"
  have "mset (nths xs A) + mset (nths xs (- A)) = image_mset fst ?M"
    by (simp add: nths_def flip: image_mset_union)
  also have "image_mset fst ?M = mset (map fst (zip xs [0..<length xs]))"
    by (simp only: mset_map)
  also have "map fst (zip xs [0..<length xs]) = xs"
    by simp
  finally show ?thesis .
qed

lemma distinct_nths_disjoint:
  assumes "distinct xs"
  shows "set (nths xs A) \<inter> set (nths xs (- A)) = {}"
  using assms by (auto simp: set_nths nth_eq_iff_index_eq)

lemma nths_none: "\<forall>i < length xs. i \<notin> A \<Longrightarrow> nths xs A = []"
  using nths_filter [of xs A "\<lambda>r. False"] by simp

lemma difference_filter_Some:
  "difference (Some xs) (filter p xs) = filter (\<lambda>x. \<not> p x) xs"
  by (auto simp: difference_def intro: filter_cong)

text \<open>
  What \<open>dropElders\<close> returns, by positions: every entry is judged by its age at the reading
  of the clock made for it.
\<close>

lemma dropElders_index:
  assumes "\<forall>r \<in> set (index_of s). \<bar>timestamp r\<bar> < 2 ^ 53"
  shows "dropElders clock L (records_list s) =
     \<lparr>removedRecords =
        nths (index_of s) {i. i < length (index_of s) \<and> clock i - timestamp (index_of s ! i) > L},
      retainedRecords =
        nths (index_of s) (- {i. i < length (index_of s) \<and> clock i - timestamp (index_of s ! i) > L})\<rparr>"
proof (cases "records_list s")
  case None
  then show ?thesis
    by (simp add: dropElders_def lodash_filter_def difference_def index_of_def)
next
  case (Some xs)
  let ?I = "{i. i < length xs \<and> clock i - timestamp (xs ! i) > L}"
  let ?Q = "\<lambda>i r. to_double (clock i - L) > timestamp r"
  have ts: "\<forall>i < length xs. \<bar>timestamp (xs ! i)\<bar> < 2 ^ 53"
    using assms Some by (simp add: index_of_def)
  have q: "\<forall>i < length xs. ?Q i (xs ! i) \<longleftrightarrow> i \<in> ?I"
    using ts by (auto simp: to_double_greater)
  then have nq: "\<forall>i < length xs. \<not> ?Q i (xs ! i) \<longleftrightarrow> i \<in> - ?I"
    by simp
  have 1: "map snd (filter (\<lambda>(i, r). ?Q i r) (List.enumerate 0 xs)) = nths xs ?I"
    using q by (rule enumerate_filter_nths)
  have 2: "map snd (filter (\<lambda>(i, r). \<not> ?Q i r) (List.enumerate 0 xs)) = nths xs (- ?I)"
    using nq by (rule enumerate_filter_nths)
  have 3: "(\<lambda>x. \<not> (case x of (i, r) \<Rightarrow> ?Q i r)) = (\<lambda>(i, r). \<not> ?Q i r)"
    by (rule ext) (simp add: case_prod_unfold)
  show ?thesis
    using 1 2
    by (simp add: dropElders_def Let_def lodash_filter_def difference_filter_Some 3 Some index_of_def)
qed

lemma dropElders_null: "dropElders clock L None = \<lparr>removedRecords = [], retainedRecords = []\<rparr>"
  by (simp add: dropElders_def lodash_filter_def difference_def)

lemma dropOlderThan_ok:
  "\<not> flt (GetItem RECORDS_LIST_KEY) \<Longrightarrow>
   dropOlderThan flt clock L s = (Resolved (dropElders clock L (records_list s)), s)"
  by (simp add: dropOlderThan_def getAll_ok)

lemma dropOlderThan_fault:
  "flt (GetItem RECORDS_LIST_KEY) \<Longrightarrow> dropOlderThan flt clock L s = (Rejected StoreError, s)"
  by (simp add: dropOlderThan_def getAll_fault)

text \<open>
  The clock advances between the two tests: of two entries of the same age, the second is
  removed and the first is kept.
\<close>

lemma dropElders_clock_advances:
  "dropElders (\<lambda>i. 150 + int i) 50
     (Some [\<lparr>key = ''sync-record-a'', timestamp = 100, pageSeriesKey = None\<rparr>,
            \<lparr>key = ''sync-record-b'', timestamp = 100, pageSeriesKey = None\<rparr>]) =
   \<lparr>removedRecords = [\<lparr>key = ''sync-record-b'', timestamp = 100, pageSeriesKey = None\<rparr>],
    retainedRecords = [\<lparr>key = ''sync-record-a'', timestamp = 100, pageSeriesKey = None\<rparr>]\<rparr>"
  by (simp add: dropElders_def lodash_filter_def difference_def enumerate_eq_zip upt_rec
      to_double_small)

text \<open>
  The subtraction rounds: \<open>2 ^ 53 - (- 1)\<close> is \<open>2 ^ 53\<close> in doubles, which is not greater than
  the timestamp \<open>2 ^ 53\<close>.
\<close>

lemma dropElders_rounding:
  "dropElders (\<lambda>i. 2 ^ 53) (- 1)
     (Some [\<lparr>key = ''sync-record-a'', timestamp = 2 ^ 53, pageSeriesKey = None\<rparr>]) =
   \<lparr>removedRecords = [],
    retainedRecords = [\<lparr>key = ''sync-record-a'', timestamp = 2 ^ 53, pageSeriesKey = None\<rparr>]\<rparr>"
  using to_double_rounds_to_even
  by (simp add: dropElders_def lodash_filter_def difference_def enumerate_eq_zip)

section \<open>Removing payloads\<close>

lemma remove_each_Cons:
  "remove_each flt (k # ks) s =
     (fst (lf_removeItem flt k s) # fst (remove_each flt ks (snd (lf_removeItem flt k s))),
      snd (remove_each flt ks (snd (lf_removeItem flt k s))))"
  by (simp split: prod.splits)

lemma lf_removeItem_promise:
  "fst (lf_removeItem flt k s) = (if flt (RemoveItem k) then Rejected StoreError else Resolved ())"
  by (simp add: lf_removeItem_def)

lemma lf_removeItem_payload:
  "payload (snd (lf_removeItem flt a s)) k =
     (if k = a \<and> k \<noteq> RECORDS_LIST_KEY \<and> \<not> flt (RemoveItem k) then None else payload s k)"
  by (auto simp: lf_removeItem_def payload_def delete_conv)

lemma lf_removeItem_records_list:
  "records_list (snd (lf_removeItem flt a s)) =
     (if a = RECORDS_LIST_KEY \<and> \<not> flt (RemoveItem RECORDS_LIST_KEY) then None
      else records_list s)"
  by (simp add: lf_removeItem_def)

lemma remove_each_promises:
  "fst (remove_each flt ks s) =
     map (\<lambda>k. if flt (RemoveItem k) then Rejected StoreError else Resolved ()) ks"
  by (induction ks arbitrary: s)
     (simp_all add: remove_each_Cons lf_removeItem_promise del: remove_each.simps(2))

lemma remove_each_payload:
  "payload (snd (remove_each flt ks s)) k =
     (if k \<in> set ks \<and> k \<noteq> RECORDS_LIST_KEY \<and> \<not> flt (RemoveItem k) then None else payload s k)"
  by (induction ks arbitrary: s)
     (auto simp: remove_each_Cons lf_removeItem_payload simp del: remove_each.simps(2))

lemma remove_each_records_list:
  "records_list (snd (remove_each flt ks s)) =
     (if RECORDS_LIST_KEY \<in> set ks \<and> \<not> flt (RemoveItem RECORDS_LIST_KEY) then None
      else records_list s)"
  by (induction ks arbitrary: s)
     (simp_all add: remove_each_Cons lf_removeItem_records_list del: remove_each.simps(2))

lemma promise_all_undefined:
  "promise_all (map (\<lambda>p. Undefined) xs @ [Thenable p]) =
     map_promise (\<lambda>v. replicate (length xs) None @ [Some v]) p"
proof (induction xs)
  case Nil
  then show ?case by (cases p) simp_all
next
  case (Cons a xs)
  then show ?case by (cases p) simp_all
qed

lemma removeRecordsByList_nonempty:
  assumes "removedRecords data \<noteq> []"
  shows "removeRecordsByList flt data s =
     (if flt (SetItem RECORDS_LIST_KEY) then Pending else Resolved (),
      snd (lf_setRecords flt (retainedRecords data)
             (snd (remove_each flt (map key (removedRecords data)) s))))"
  using assms
  by (simp add: removeRecordsByList_def promise_all_undefined lf_setRecords_def
      split: prod.splits)

lemma removeRecordsByList_empty:
  "removedRecords data = [] \<Longrightarrow> removeRecordsByList flt data s = (Pending, s)"
  by (simp add: removeRecordsByList_def)

lemma removeRecordsByList_never_rejects:
  "fst (removeRecordsByList flt data s) \<noteq> Rejected e"
  by (cases "removedRecords data = []")
     (simp_all add: removeRecordsByList_empty removeRecordsByList_nonempty)

lemma removeRecordsByList_payload:
  "payload (snd (removeRecordsByList flt data s)) k =
     (if k \<in> key ` set (removedRecords data) \<and> k \<noteq> RECORDS_LIST_KEY \<and> \<not> flt (RemoveItem k)
      then None else payload s k)"
proof (cases "removedRecords data = []")
  case True
  then show ?thesis by (simp add: removeRecordsByList_empty)
next
  case False
  have "payload (snd (lf_setRecords flt v t)) k = payload t k" for v and t :: "'a store"
    by (simp add: lf_setRecords_def payload_def)
  then show ?thesis
    using False by (simp add: removeRecordsByList_nonempty remove_each_payload)
qed

lemma removeRecordsByList_index:
  assumes "removedRecords data \<noteq> []" "\<not> flt (SetItem RECORDS_LIST_KEY)"
  shows "records_list (snd (removeRecordsByList flt data s)) = Some (retainedRecords data)"
  using assms by (simp add: removeRecordsByList_nonempty lf_setRecords_def)

lemma lf_setRecords_items: "items (snd (lf_setRecords flt v s)) = items s"
  by (simp add: lf_setRecords_def)

lemma removeItem_items: "items (snd (removeItem flt k s)) = items s"
  by (cases "flt (GetItem RECORDS_LIST_KEY)")
     (simp_all add: removeItem_def getAllExcluding_ok getAllExcluding_fault lf_setRecords_items)

lemma removeItem_ok:
  assumes "\<not> flt (GetItem RECORDS_LIST_KEY)" "\<not> flt (SetItem RECORDS_LIST_KEY)"
  shows "removeItem flt k s =
           (Resolved (filter (\<lambda>r. key r \<noteq> k) (index_of s)),
            s\<lparr>records_list := Some (filter (\<lambda>r. key r \<noteq> k) (index_of s))\<rparr>)"
  using assms by (simp add: removeItem_def getAllExcluding_ok lf_setRecords_def)

lemma pruneRecordsFrom_nothing_old:
  assumes "\<forall>r \<in> set (index_of s). \<bar>timestamp r\<bar> < 2 ^ 53"
    and "\<forall>i < length (index_of s). \<not> clock i - timestamp (index_of s ! i) > L"
  shows "pruneRecordsFrom ms flt clock (Some (Millis L)) s =
           (if flt (GetItem RECORDS_LIST_KEY) then Rejected StoreError else Pending, s)"
proof (cases "flt (GetItem RECORDS_LIST_KEY)")
  case True
  then show ?thesis
    by (simp add: pruneRecordsFrom_def dropOlderThan_fault)
next
  case False
  have "{i. i < length (index_of s) \<and> clock i - timestamp (index_of s ! i) > L} = {}"
    using assms(2) by auto
  then have "removedRecords (dropElders clock L (records_list s)) = []"
    by (simp only: dropElders_index [OF assms(1)] nths_empty record_lists.simps)
  then show ?thesis
    using False by (simp add: pruneRecordsFrom_def dropOlderThan_ok removeRecordsByList_empty)
qed

section \<open>Adding entries\<close>

lemma addItem_ok:
  assumes "\<not> flt (GetItem RECORDS_LIST_KEY)" "\<not> flt (SetItem RECORDS_LIST_KEY)"
  shows "addItem flt now k g s =
           (Resolved (filter (\<lambda>r. key r \<noteq> k) (index_of s) @
                        [\<lparr>key = k, timestamp = now, pageSeriesKey = (if truthy g then g else None)\<rparr>]),
            s\<lparr>records_list := Some (filter (\<lambda>r. key r \<noteq> k) (index_of s) @
                        [\<lparr>key = k, timestamp = now, pageSeriesKey = (if truthy g then g else None)\<rparr>])\<rparr>)"
  using assms by (simp add: addItem_def getAllExcluding_ok lf_setRecords_def)

lemma addItem_fault:
  assumes "flt (GetItem RECORDS_LIST_KEY) \<or> flt (SetItem RECORDS_LIST_KEY)"
  shows "snd (addItem flt now k g s) = s"
  using assms
  by (cases "flt (GetItem RECORDS_LIST_KEY)")
     (simp_all add: addItem_def getAllExcluding_ok getAllExcluding_fault lf_setRecords_def Let_def)

lemma index_of_update: "index_of (s\<lparr>records_list := Some rs\<rparr>) = rs"
  by (simp add: index_of_def)

lemma addItem_index:
  "index_of (snd (addItem flt now k g s)) =
     (if flt (GetItem RECORDS_LIST_KEY) \<or> flt (SetItem RECORDS_LIST_KEY) then index_of s
      else filter (\<lambda>r. key r \<noteq> k) (index_of s) @
             [\<lparr>key = k, timestamp = now, pageSeriesKey = (if truthy g then g else None)\<rparr>])"
proof (cases "flt (GetItem RECORDS_LIST_KEY) \<or> flt (SetItem RECORDS_LIST_KEY)")
  case True
  then show ?thesis by (simp add: addItem_fault)
next
  case False
  then show ?thesis by (simp add: addItem_ok index_of_update)
qed

lemma distinct_keys_replace:
  assumes "distinct (map key rs)"
  shows "distinct (map key (filter (\<lambda>r. key r \<noteq> k) rs @ [e\<lparr>key := k\<rparr>]))"
  using assms by (auto simp: distinct_map_filter)

lemma addItem_distinct:
  assumes "distinct (map key (index_of s))"
  shows "distinct (map key (index_of (snd (addItem flt now k g s))))"
  using assms distinct_keys_replace [of "index_of s" k "\<lparr>key = k, timestamp = now, pageSeriesKey = (if truthy g then g else None)\<rparr>"]
  by (simp add: addItem_index)

lemma addItems_distinct:
  "distinct (map key (index_of s)) \<Longrightarrow> distinct (map key (index_of (addItems calls s)))"
proof (induction calls arbitrary: s)
  case Nil
  then show ?case by simp
next
  case (Cons c calls)
  obtain flt now k g where c: "c = (flt, now, k, g)"
    by (cases c)
  show ?case
    unfolding c addItems.simps
    by (rule Cons.IH) (rule addItem_distinct [OF Cons.prems])
qed

section \<open>Clearing a page series\<close>

lemma pickPageSeries_index:
  "pickPageSeries A (records_list s) =
     \<lparr>removedRecords = filter (\<lambda>r. pageSeriesKey r = Some A) (index_of s),
      retainedRecords = filter (\<lambda>r. pageSeriesKey r \<noteq> Some A) (index_of s)\<rparr>"
  by (simp add: pickPageSeries_def Let_def lodash_filter_index difference_filter)

lemma clearPageSeries_store:
  "snd (clearPageSeries generateKey flt reqParams s) =
     snd (then_do (then_val (getAll flt s) (pickPageSeries (generateKey (omit reqParams ''next_page''))))
            (removeRecordsByList flt))"
  by (simp add: clearPageSeries_def Let_def split: prod.splits promise.splits)

lemma clearPageSeries_promise:
  "fst (clearPageSeries generateKey flt reqParams s) =
     (case fst (then_do (then_val (getAll flt s) (pickPageSeries (generateKey (omit reqParams ''next_page''))))
            (removeRecordsByList flt)) of Resolved v \<Rightarrow> Resolved v | Rejected e \<Rightarrow> Pending | Pending \<Rightarrow> Pending)"
  by (simp add: clearPageSeries_def Let_def split: prod.splits promise.splits)

lemma clearPageSeries_index:
  assumes "\<not> flt (GetItem RECORDS_LIST_KEY)" "\<not> flt (SetItem RECORDS_LIST_KEY)"
  shows "index_of (snd (clearPageSeries generateKey flt reqParams s)) =
           filter (\<lambda>r. pageSeriesKey r \<noteq> Some (generateKey (omit reqParams ''next_page'')))
             (index_of s)"
proof -
  let ?A = "generateKey (omit reqParams ''next_page'')"
  let ?data = "pickPageSeries ?A (records_list s)"
  have st: "snd (clearPageSeries generateKey flt reqParams s) = snd (removeRecordsByList flt ?data s)"
    using assms(1) by (simp add: clearPageSeries_store getAll_ok)
  show ?thesis
  proof (cases "removedRecords ?data = []")
    case True
    then have "\<forall>r \<in> set (index_of s). pageSeriesKey r \<noteq> Some ?A"
      by (simp add: pickPageSeries_index filter_empty_conv)
    then have "filter (\<lambda>r. pageSeriesKey r \<noteq> Some ?A) (index_of s) = index_of s"
      by (simp add: filter_id_conv)
    then show ?thesis
      using True by (simp add: st removeRecordsByList_empty)
  next
    case False
    have "records_list (snd (removeRecordsByList flt ?data s)) = Some (retainedRecords ?data)"
      using False assms(2) by (rule removeRecordsByList_index)
    then show ?thesis
      by (simp add: st index_of_def pickPageSeries_index)
  qed
qed

lemma clearPageSeries_payload:
  assumes "\<not> flt (GetItem RECORDS_LIST_KEY)"
  shows "payload (snd (clearPageSeries generateKey flt reqParams s)) k =
           (if k \<in> key ` {r \<in> set (index_of s).
                            pageSeriesKey r = Some (generateKey (omit reqParams ''next_page''))} \<and>
               k \<noteq> RECORDS_LIST_KEY \<and> \<not> flt (RemoveItem k)
            then None else payload s k)"
proof -
  have "set (filter P xs) = {r \<in> set xs. P r}" for P and xs :: "entry list"
    by auto
  then show ?thesis
    using assms
    by (simp add: clearPageSeries_store getAll_ok removeRecordsByList_payload pickPageSeries_index)
qed

lemma clearPageSeries_resolved:
  assumes "\<not> flt (GetItem RECORDS_LIST_KEY)" "\<not> flt (SetItem RECORDS_LIST_KEY)"
    and "r \<in> set (index_of s)"
    and "pageSeriesKey r = Some (generateKey (omit reqParams ''next_page''))"
  shows "fst (clearPageSeries generateKey flt reqParams s) = Resolved ()"
proof -
  let ?A = "generateKey (omit reqParams ''next_page'')"
  have "r \<in> set (filter (\<lambda>r. pageSeriesKey r = Some ?A) (index_of s))"
    using assms(3,4) by simp
  then have "removedRecords (pickPageSeries ?A (records_list s)) \<noteq> []"
    by (auto simp: pickPageSeries_index simp del: set_filter)
  then show ?thesis
    using assms(1,2)
    by (simp add: clearPageSeries_promise getAll_ok removeRecordsByList_nonempty)
qed

lemma omit_next_page: "omit (reqParams(''next_page'' := c)) ''next_page'' = omit reqParams ''next_page''"
  by (simp add: omit_def)

lemma pickPageSeries_ungrouped:
  "pageSeriesKey e = None \<Longrightarrow> e \<notin> set (removedRecords (pickPageSeries psk records))"
  by (simp add: pickPageSeries_def Let_def lodash_filter_def split: option.splits)

section \<open>Clearing the store\<close>

lemma not_sync_RECORDS_LIST_KEY: "\<not> isSyncRecordKey RECORDS_LIST_KEY"
  by (simp add: isSyncRecordKey_def RECORDS_LIST_KEY_def)

lemma isSyncRecordKey_shape:
  "isSyncRecordKey k \<longleftrightarrow>
     (\<exists>ident. ident \<noteq> [] \<and> (\<forall>c \<in> set ident. word_char c) \<and> k = ''sync-record-'' @ ident)"
proof
  assume a: "isSyncRecordKey k"
  let ?n = "length ''sync-record-''"
  have "take ?n k = ''sync-record-''"
    using a by (simp add: isSyncRecordKey_def)
  then have "k = ''sync-record-'' @ drop ?n k"
    using append_take_drop_id [of ?n k] by metis
  moreover have "drop ?n k \<noteq> []" "\<forall>c \<in> set (drop ?n k). word_char c"
    using a by (simp_all add: isSyncRecordKey_def list_all_iff)
  ultimately show "\<exists>ident. ident \<noteq> [] \<and> (\<forall>c \<in> set ident. word_char c) \<and> k = ''sync-record-'' @ ident"
    by blast
next
  assume "\<exists>ident. ident \<noteq> [] \<and> (\<forall>c \<in> set ident. word_char c) \<and> k = ''sync-record-'' @ ident"
  then show "isSyncRecordKey k"
    by (auto simp: isSyncRecordKey_def list_all_iff)
qed

lemma clearAll_store:
  assumes "\<not> flt Keys"
  shows "snd (clearAll flt s) =
           snd (lf_removeItem flt RECORDS_LIST_KEY
                  (snd (remove_each flt
                     (filter isSyncRecordKey
                        ((case records_list s of None \<Rightarrow> [] | Some v \<Rightarrow> [RECORDS_LIST_KEY])
                         @ map fst (items s))) s)))"
  using assms by (simp add: clearAll_def lf_keys_def Let_def split: prod.splits)

lemma clearAll_promise:
  assumes "\<not> flt Keys"
  shows "fst (clearAll flt s) =
           promise_all (map Thenable
             (fst (remove_each flt
                     (filter isSyncRecordKey
                        ((case records_list s of None \<Rightarrow> [] | Some v \<Rightarrow> [RECORDS_LIST_KEY])
                         @ map fst (items s))) s)) @
              [Thenable (fst (lf_removeItem flt RECORDS_LIST_KEY
                  (snd (remove_each flt
                     (filter isSyncRecordKey
                        ((case records_list s of None \<Rightarrow> [] | Some v \<Rightarrow> [RECORDS_LIST_KEY])
                         @ map fst (items s))) s))))])"
  using assms by (simp add: clearAll_def lf_keys_def Let_def split: prod.splits)

lemma promise_all_resolved:
  "\<forall>a \<in> set as. a = Thenable (Resolved ()) \<Longrightarrow> \<exists>vs. promise_all as = Resolved vs"
  by (induction as) auto

lemma clearAll_payload:
  assumes "\<not> flt Keys" "\<forall>k. \<not> flt (RemoveItem k)"
  shows "payload (snd (clearAll flt s)) k = (if isSyncRecordKey k then None else payload s k)"
proof (cases "isSyncRecordKey k")
  case False
  then show ?thesis
    using assms by (simp add: clearAll_store lf_removeItem_payload remove_each_payload)
next
  case True
  then have k: "k \<noteq> RECORDS_LIST_KEY"
    using not_sync_RECORDS_LIST_KEY by blast
  show ?thesis
  proof (cases "k \<in> fst ` set (items s)")
    case True
    then show ?thesis
      using assms k \<open>isSyncRecordKey k\<close>
      by (simp add: clearAll_store lf_removeItem_payload remove_each_payload)
  next
    case False
    then have "payload s k = None"
      by (simp add: payload_def map_of_eq_None_iff)
    then show ?thesis
      using assms by (simp add: clearAll_store lf_removeItem_payload remove_each_payload)
  qed
qed

lemma clearAll_records_list:
  assumes "\<not> flt Keys" "\<not> flt (RemoveItem RECORDS_LIST_KEY)"
  shows "records_list (snd (clearAll flt s)) = None"
  using assms by (simp add: clearAll_store lf_removeItem_records_list)

lemma clearAll_resolved:
  assumes "\<not> flt Keys" "\<forall>k. \<not> flt (RemoveItem k)"
  shows "\<exists>vs. fst (clearAll flt s) = Resolved vs"
proof -
  let ?ks = "filter isSyncRecordKey
               ((case records_list s of None \<Rightarrow> [] | Some v \<Rightarrow> [RECORDS_LIST_KEY]) @ map fst (items s))"
  have "\<forall>a \<in> set (map Thenable (fst (remove_each flt ?ks s)) @
            [Thenable (fst (lf_removeItem flt RECORDS_LIST_KEY (snd (remove_each flt ?ks s))))]).
          a = Thenable (Resolved ())"
    using assms(2) by (auto simp: remove_each_promises lf_removeItem_promise)
  then show ?thesis
    unfolding clearAll_promise [of flt s, OF assms(1)] by (rule promise_all_resolved)
qed

section \<open>The claims\<close>

text \<open>
  C1. \<open>addItem\<close> keeps the index free of duplicate keys: an index with at most one entry
  per key has at most one entry per key after any sequence of \<open>addItem\<close> calls, whether the
  store calls fail or not, and so has every index built by \<open>addItem\<close> calls on a store whose
  index was never set. A call whose store calls succeed persists the index without the
  entries of the given key, followed by one fresh entry for it, so that exactly one entry has
  the key.
\<close>

theorem addItem_uniqueness:
  "(distinct (map key (index_of s)) \<longrightarrow> distinct (map key (index_of (addItems calls s)))) \<and>
   distinct (map key (index_of (addItems calls \<lparr>records_list = None, items = its\<rparr>))) \<and>
   (\<not> flt (GetItem RECORDS_LIST_KEY) \<and> \<not> flt (SetItem RECORDS_LIST_KEY) \<longrightarrow>
      index_of (snd (addItem flt now k g s)) =
        filter (\<lambda>r. key r \<noteq> k) (index_of s) @
          [\<lparr>key = k, timestamp = now, pageSeriesKey = (if truthy g then g else None)\<rparr>] \<and>
      length (filter (\<lambda>r. key r = k) (index_of (snd (addItem flt now k g s)))) = 1)"
proof -
  have "distinct (map key (index_of \<lparr>records_list = None, items = its\<rparr>))"
    by (simp add: index_of_def)
  then have "distinct (map key (index_of (addItems calls \<lparr>records_list = None, items = its\<rparr>)))"
    by (rule addItems_distinct)
  moreover have "filter (\<lambda>r. key r = k) (filter (\<lambda>r. key r \<noteq> k) (index_of s)) = []"
    by (simp add: filter_empty_conv)
  ultimately show ?thesis
    by (simp add: addItems_distinct addItem_index)
qed

theorem addItem_uniqueness_witness:
  "distinct (map key (index_of \<lparr>records_list = Some [\<lparr>key = ''k1'', timestamp = 1, pageSeriesKey = None\<rparr>,
                                                     \<lparr>key = ''k2'', timestamp = 2, pageSeriesKey = None\<rparr>],
                               items = [] :: (string \<times> nat) list\<rparr>)) \<and>
   \<not> no_faults (GetItem RECORDS_LIST_KEY) \<and> \<not> no_faults (SetItem RECORDS_LIST_KEY) \<and>
   index_of (addItems [(no_faults, 3, ''k1'', None), (no_faults, 4, ''k1'', Some ''g1'')]
      \<lparr>records_list = Some [\<lparr>key = ''k1'', timestamp = 1, pageSeriesKey = None\<rparr>,
                            \<lparr>key = ''k2'', timestamp = 2, pageSeriesKey = None\<rparr>],
       items = [] :: (string \<times> nat) list\<rparr>) =
     [\<lparr>key = ''k2'', timestamp = 2, pageSeriesKey = None\<rparr>,
      \<lparr>key = ''k1'', timestamp = 4, pageSeriesKey = Some ''g1''\<rparr>] \<and>
   distinct (map key (index_of (addItems [(no_faults, 3, ''k1'', None), (no_faults, 4, ''k1'', Some ''g1'')]
      \<lparr>records_list = Some [\<lparr>key = ''k1'', timestamp = 1, pageSeriesKey = None\<rparr>,
                            \<lparr>key = ''k2'', timestamp = 2, pageSeriesKey = None\<rparr>],
       items = [] :: (string \<times> nat) list\<rparr>))) \<and>
   index_of (snd (addItem no_faults 3 ''k1'' None
      \<lparr>records_list = Some [\<lparr>key = ''k1'', timestamp = 1, pageSeriesKey = None\<rparr>,
                            \<lparr>key = ''k2'', timestamp = 2, pageSeriesKey = None\<rparr>],
       items = [] :: (string \<times> nat) list\<rparr>)) =
     [\<lparr>key = ''k2'', timestamp = 2, pageSeriesKey = None\<rparr>,
      \<lparr>key = ''k1'', timestamp = 3, pageSeriesKey = None\<rparr>]"
  using addItem_uniqueness [of
      "\<lparr>records_list = Some [\<lparr>key = ''k1'', timestamp = 1, pageSeriesKey = None\<rparr>,
                            \<lparr>key = ''k2'', timestamp = 2, pageSeriesKey = None\<rparr>],
       items = [] :: (string \<times> nat) list\<rparr>"
      "[(no_faults, 3, ''k1'', None), (no_faults, 4, ''k1'', Some ''g1'')]" "[]"
      no_faults 3 "''k1''" None]
  by (simp add: no_faults_def index_of_def addItem_def getAllExcluding_def getAll_def
      lf_getRecords_def lf_setRecords_def dropMatches_def lodash_filter_def negate_def
      matchesProperty_key_def)

text \<open>
  C2. The claim: \<open>removeRecordsByList\<close> settles only after every payload deletion and the
  index rewrite have settled, and is rejected when a deletion fails. The code at an input
  where the one deletion fails: the deletion's promise is not in the array given to
  \<open>Promise.all\<close>, the returned promise is fulfilled, the index is rewritten and the payload
  stays in the store.
\<close>

theorem removeRecordsByList_failed_deletion_resolves:
  "removeRecordsByList (\<lambda>c. c = RemoveItem ''sync-record-b'')
     \<lparr>removedRecords = [\<lparr>key = ''sync-record-b'', timestamp = 40800000, pageSeriesKey = None\<rparr>],
      retainedRecords = [\<lparr>key = ''sync-record-a'', timestamp = 300000000, pageSeriesKey = None\<rparr>]\<rparr>
     \<lparr>records_list = Some [\<lparr>key = ''sync-record-a'', timestamp = 300000000, pageSeriesKey = None\<rparr>,
                           \<lparr>key = ''sync-record-b'', timestamp = 40800000, pageSeriesKey = None\<rparr>],
      items = [(''sync-record-a'', 1::nat), (''sync-record-b'', 2)]\<rparr> =
   (Resolved (),
     \<lparr>records_list = Some [\<lparr>key = ''sync-record-a'', timestamp = 300000000, pageSeriesKey = None\<rparr>],
      items = [(''sync-record-a'', 1::nat), (''sync-record-b'', 2)]\<rparr>)"
  by (simp add: removeRecordsByList_def lf_removeItem_def lf_setRecords_def RECORDS_LIST_KEY_def)

text \<open>
  C3. The claim: when no entry is older than the lifetime, \<open>pruneRecordsFrom\<close> leaves the
  index and the payloads as they are, and \<open>removeRecordsByList\<close> on an empty
  \<open>removedRecords\<close> is a completed no-op. The code at such an input: the store is unchanged,
  and the returned promise is never settled.
\<close>

theorem pruneRecordsFrom_nothing_old_pending:
  "pruneRecordsFrom (\<lambda>str. 0) no_faults (\<lambda>i. 300000000) (Some (Millis 172800000))
     \<lparr>records_list = Some [\<lparr>key = ''sync-record-a'', timestamp = 300000000, pageSeriesKey = None\<rparr>],
      items = [(''sync-record-a'', 1::nat)]\<rparr> =
   (Pending,
     \<lparr>records_list = Some [\<lparr>key = ''sync-record-a'', timestamp = 300000000, pageSeriesKey = None\<rparr>],
      items = [(''sync-record-a'', 1::nat)]\<rparr>) \<and>
   removeRecordsByList no_faults
     \<lparr>removedRecords = [],
      retainedRecords = [\<lparr>key = ''sync-record-a'', timestamp = 300000000, pageSeriesKey = None\<rparr>]\<rparr>
     \<lparr>records_list = Some [\<lparr>key = ''sync-record-a'', timestamp = 300000000, pageSeriesKey = None\<rparr>],
      items = [(''sync-record-a'', 1::nat)]\<rparr> =
   (Pending,
     \<lparr>records_list = Some [\<lparr>key = ''sync-record-a'', timestamp = 300000000, pageSeriesKey = None\<rparr>],
      items = [(''sync-record-a'', 1::nat)]\<rparr>)"
  by (simp add: pruneRecordsFrom_def dropOlderThan_def getAll_def lf_getRecords_def no_faults_def
      dropElders_def lodash_filter_def difference_def to_double_def removeRecordsByList_def)

text \<open>
  C4. When the store read succeeds and the timestamps are safe integers (below \<open>2 ^ 53\<close> in
  magnitude, as every value of \<open>Date.now()\<close> is), \<open>dropOlderThan\<close> partitions the index for
  every lifetime \<open>L\<close>: the removed records are the entries whose age, at the reading of the
  clock made for them, exceeds \<open>L\<close>, the retained records are the entries at the other
  positions, both in the order of the index; together they are the index as a multiset, they
  share no entry when the index repeats none, and the store is unchanged. When the clock
  reads \<open>now\<close> throughout the call, the removed records are precisely the entries with
  \<open>now - timestamp > L\<close>, the retained records are precisely the others, and they share no
  entry.
\<close>

theorem dropOlderThan_partition:
  assumes "\<not> flt (GetItem RECORDS_LIST_KEY)"
    and "\<forall>r \<in> set (index_of s). \<bar>timestamp r\<bar> < 2 ^ 53"
  shows "\<exists>removed retained I.
           dropOlderThan flt clock L s =
             (Resolved \<lparr>removedRecords = removed, retainedRecords = retained\<rparr>, s) \<and>
           I = {i. i < length (index_of s) \<and> clock i - timestamp (index_of s ! i) > L} \<and>
           removed = nths (index_of s) I \<and>
           retained = nths (index_of s) (- I) \<and>
           mset removed + mset retained = mset (index_of s) \<and>
           (distinct (index_of s) \<longrightarrow> set removed \<inter> set retained = {}) \<and>
           ((\<forall>i < length (index_of s). clock i = now) \<longrightarrow>
              removed = filter (\<lambda>r. now - timestamp r > L) (index_of s) \<and>
              retained = filter (\<lambda>r. \<not> now - timestamp r > L) (index_of s) \<and>
              set removed \<inter> set retained = {})"
proof -
  let ?xs = "index_of s"
  let ?I = "{i. i < length ?xs \<and> clock i - timestamp (?xs ! i) > L}"
  let ?P = "\<lambda>r. now - timestamp r > L"
  have "dropOlderThan flt clock L s =
          (Resolved \<lparr>removedRecords = nths ?xs ?I, retainedRecords = nths ?xs (- ?I)\<rparr>, s)"
    using assms(1) by (simp add: dropOlderThan_ok dropElders_index [OF assms(2)])
  moreover have "mset (nths ?xs ?I) + mset (nths ?xs (- ?I)) = mset ?xs"
    by (rule mset_nths_partition)
  moreover have "distinct ?xs \<longrightarrow> set (nths ?xs ?I) \<inter> set (nths ?xs (- ?I)) = {}"
    by (simp add: distinct_nths_disjoint)
  moreover have "nths ?xs ?I = filter ?P ?xs \<and>
                 nths ?xs (- ?I) = filter (\<lambda>r. \<not> ?P r) ?xs \<and>
                 set (nths ?xs ?I) \<inter> set (nths ?xs (- ?I)) = {}"
    if c: "\<forall>i < length ?xs. clock i = now"
  proof -
    have 1: "nths ?xs ?I = filter ?P ?xs"
      using c by (intro nths_filter) simp
    have 2: "nths ?xs (- ?I) = filter (\<lambda>r. \<not> ?P r) ?xs"
      using c by (intro nths_filter) simp
    have "set (filter ?P ?xs) \<inter> set (filter (\<lambda>r. \<not> ?P r) ?xs) = {}"
      by auto
    then show ?thesis
      by (simp only: 1 2 simp_thms)
  qed
  ultimately show ?thesis
    by blast
qed

theorem dropOlderThan_partition_witness:
  "\<not> no_faults (GetItem RECORDS_LIST_KEY) \<and>
   \<bar>timestamp \<lparr>key = ''sync-record-a'', timestamp = 300000000, pageSeriesKey = None\<rparr>\<bar> < 2 ^ 53 \<and>
   \<bar>timestamp \<lparr>key = ''sync-record-b'', timestamp = 40800000, pageSeriesKey = None\<rparr>\<bar> < 2 ^ 53 \<and>
   distinct [\<lparr>key = ''sync-record-a'', timestamp = 300000000, pageSeriesKey = None\<rparr>,
             \<lparr>key = ''sync-record-b'', timestamp = 40800000, pageSeriesKey = None\<rparr>] \<and>
   dropOlderThan no_faults (\<lambda>i. 300000000) 172800000
     \<lparr>records_list = Some [\<lparr>key = ''sync-record-a'', timestamp = 300000000, pageSeriesKey = None\<rparr>,
                           \<lparr>key = ''sync-record-b'', timestamp = 40800000, pageSeriesKey = None\<rparr>],
      items = [(''sync-record-a'', 1::nat), (''sync-record-b'', 2)]\<rparr> =
   (Resolved \<lparr>removedRecords = [\<lparr>key = ''sync-record-b'', timestamp = 40800000, pageSeriesKey = None\<rparr>],
              retainedRecords = [\<lparr>key = ''sync-record-a'', timestamp = 300000000, pageSeriesKey = None\<rparr>]\<rparr>,
    \<lparr>records_list = Some [\<lparr>key = ''sync-record-a'', timestamp = 300000000, pageSeriesKey = None\<rparr>,
                           \<lparr>key = ''sync-record-b'', timestamp = 40800000, pageSeriesKey = None\<rparr>],
      items = [(''sync-record-a'', 1::nat), (''sync-record-b'', 2)]\<rparr>) \<and>
   fst (dropOlderThan no_faults (\<lambda>i. 150 + int i) 50
     \<lparr>records_list = Some [\<lparr>key = ''sync-record-a'', timestamp = 100, pageSeriesKey = None\<rparr>,
                           \<lparr>key = ''sync-record-b'', timestamp = 100, pageSeriesKey = None\<rparr>],
      items = [(''sync-record-a'', 1::nat), (''sync-record-b'', 2)]\<rparr>) =
   Resolved \<lparr>removedRecords = [\<lparr>key = ''sync-record-b'', timestamp = 100, pageSeriesKey = None\<rparr>],
             retainedRecords = [\<lparr>key = ''sync-record-a'', timestamp = 100, pageSeriesKey = None\<rparr>]\<rparr>"
  using dropOlderThan_partition [of no_faults
     "\<lparr>records_list = Some [\<lparr>key = ''sync-record-a'', timestamp = 300000000, pageSeriesKey = None\<rparr>,
                           \<lparr>key = ''sync-record-b'', timestamp = 40800000, pageSeriesKey = None\<rparr>],
      items = [(''sync-record-a'', 1::nat), (''sync-record-b'', 2)]\<rparr>"
     "\<lambda>i. 300000000" 172800000 300000000]
    dropOlderThan_partition [of no_faults
     "\<lparr>records_list = Some [\<lparr>key = ''sync-record-a'', timestamp = 100, pageSeriesKey = None\<rparr>,
                           \<lparr>key = ''sync-record-b'', timestamp = 100, pageSeriesKey = None\<rparr>],
      items = [(''sync-record-a'', 1::nat), (''sync-record-b'', 2)]\<rparr>"
     "\<lambda>i. 150 + int i" 50 150]
  by (simp add: no_faults_def index_of_def dropOlderThan_def getAll_def lf_getRecords_def
      dropElders_def lodash_filter_def difference_def to_double_def)

text \<open>
  C5. When the store calls succeed, \<open>clearAll\<close> removes \<open>records-list\<close> and the payload of
  every key that \<open>isSyncRecordKey\<close> accepts, and leaves every other payload as it was; its
  promise is fulfilled. The keys accepted are \<open>sync-record-\<close> followed by one or more word
  characters.
\<close>

theorem clearAll_reset_scope:
  assumes "\<not> flt Keys" "\<forall>k. \<not> flt (RemoveItem k)"
  shows "records_list (snd (clearAll flt s)) = None \<and>
         (\<forall>k. payload (snd (clearAll flt s)) k = (if isSyncRecordKey k then None else payload s k)) \<and>
         (\<exists>vs. fst (clearAll flt s) = Resolved vs) \<and>
         (\<forall>k. isSyncRecordKey k \<longleftrightarrow>
            (\<exists>ident. ident \<noteq> [] \<and> (\<forall>c \<in> set ident. word_char c) \<and> k = ''sync-record-'' @ ident))"
  using assms clearAll_resolved [OF assms] isSyncRecordKey_shape
  by (simp add: clearAll_records_list clearAll_payload)

theorem clearAll_reset_scope_witness:
  "\<not> no_faults Keys \<and> (\<forall>k. \<not> no_faults (RemoveItem k)) \<and>
   snd (clearAll no_faults
      \<lparr>records_list = Some [\<lparr>key = ''sync-record-a1'', timestamp = 1, pageSeriesKey = None\<rparr>],
       items = [(''sync-record-a1'', 10::nat), (''sync-record-'', 20), (''sync-record-b c'', 30),
                (''other'', 40), (''sync-record-orphan_9'', 50)]\<rparr>) =
      \<lparr>records_list = None,
       items = [(''sync-record-'', 20), (''sync-record-b c'', 30), (''other'', 40)]\<rparr>"
  using clearAll_reset_scope [of no_faults
      "\<lparr>records_list = Some [\<lparr>key = ''sync-record-a1'', timestamp = 1, pageSeriesKey = None\<rparr>],
       items = [(''sync-record-a1'', 10::nat), (''sync-record-'', 20), (''sync-record-b c'', 30),
                (''other'', 40), (''sync-record-orphan_9'', 50)]\<rparr>"]
  by (simp add: no_faults_def clearAll_def lf_keys_def isSyncRecordKey_def word_char_def
      lf_removeItem_def RECORDS_LIST_KEY_def)

text \<open>
  C6. When the store calls succeed and the fingerprint of the request parameters without
  \<open>next_page\<close> is \<open>A\<close>, \<open>clearPageSeries\<close> persists the index without the entries tagged
  \<open>A\<close>, keeping every other entry (tagged otherwise or not at all) in place, removes the
  payloads of the entries tagged \<open>A\<close> and no other payload, and is fulfilled when some entry
  is tagged \<open>A\<close>. The value of \<open>next_page\<close> has no effect.
\<close>

theorem clearPageSeries_group_eviction:
  assumes "\<not> flt (GetItem RECORDS_LIST_KEY)" "\<not> flt (SetItem RECORDS_LIST_KEY)"
    and "\<forall>k. \<not> flt (RemoveItem k)"
    and "generateKey (omit reqParams ''next_page'') = A"
  shows "index_of (snd (clearPageSeries generateKey flt reqParams s)) =
           filter (\<lambda>r. pageSeriesKey r \<noteq> Some A) (index_of s) \<and>
         (\<forall>r \<in> set (index_of s). pageSeriesKey r = Some A \<longrightarrow> key r \<noteq> RECORDS_LIST_KEY \<longrightarrow>
            payload (snd (clearPageSeries generateKey flt reqParams s)) (key r) = None) \<and>
         (\<forall>k. k \<notin> key ` {r \<in> set (index_of s). pageSeriesKey r = Some A} \<longrightarrow>
            payload (snd (clearPageSeries generateKey flt reqParams s)) k = payload s k) \<and>
         (\<forall>r \<in> set (index_of s). pageSeriesKey r = Some A \<longrightarrow>
            fst (clearPageSeries generateKey flt reqParams s) = Resolved ()) \<and>
         clearPageSeries generateKey flt (reqParams(''next_page'' := c)) s =
           clearPageSeries generateKey flt reqParams s"
proof -
  note pl = clearPageSeries_payload [of flt generateKey reqParams s, OF assms(1), unfolded assms(4)]
  have "clearPageSeries generateKey flt (reqParams(''next_page'' := c)) s =
          clearPageSeries generateKey flt reqParams s"
    by (simp add: clearPageSeries_def omit_next_page)
  moreover have "\<forall>r \<in> set (index_of s). pageSeriesKey r = Some A \<longrightarrow>
            fst (clearPageSeries generateKey flt reqParams s) = Resolved ()"
    using assms(1,2,4) clearPageSeries_resolved by blast
  moreover have "index_of (snd (clearPageSeries generateKey flt reqParams s)) =
           filter (\<lambda>r. pageSeriesKey r \<noteq> Some A) (index_of s)"
    unfolding assms(4) [symmetric] by (rule clearPageSeries_index [OF assms(1,2)])
  moreover have "\<forall>r \<in> set (index_of s). pageSeriesKey r = Some A \<longrightarrow> key r \<noteq> RECORDS_LIST_KEY \<longrightarrow>
            payload (snd (clearPageSeries generateKey flt reqParams s)) (key r) = None"
    using assms(3) by (auto simp: pl)
  moreover have "\<forall>k. k \<notin> key ` {r \<in> set (index_of s). pageSeriesKey r = Some A} \<longrightarrow>
            payload (snd (clearPageSeries generateKey flt reqParams s)) k = payload s k"
    by (simp add: pl)
  ultimately show ?thesis
    by blast
qed

theorem clearPageSeries_group_eviction_witness:
  "\<not> no_faults (GetItem RECORDS_LIST_KEY) \<and> \<not> no_faults (SetItem RECORDS_LIST_KEY) \<and>
   (\<forall>k. \<not> no_faults (RemoveItem k)) \<and>
   (\<lambda>p. case p ''path'' of None \<Rightarrow> '''' | Some v \<Rightarrow> v)
      (omit [''path'' \<mapsto> ''A'', ''next_page'' \<mapsto> ''2''] ''next_page'') = ''A'' \<and>
   clearPageSeries (\<lambda>p. case p ''path'' of None \<Rightarrow> '''' | Some v \<Rightarrow> v) no_faults
      [''path'' \<mapsto> ''A'', ''next_page'' \<mapsto> ''2'']
      \<lparr>records_list = Some [\<lparr>key = ''sync-record-a'', timestamp = 1, pageSeriesKey = Some ''A''\<rparr>,
                            \<lparr>key = ''sync-record-b'', timestamp = 2, pageSeriesKey = Some ''B''\<rparr>,
                            \<lparr>key = ''sync-record-c'', timestamp = 3, pageSeriesKey = None\<rparr>],
       items = [(''sync-record-a'', 10::nat), (''sync-record-b'', 20), (''sync-record-c'', 30)]\<rparr> =
   (Resolved (),
      \<lparr>records_list = Some [\<lparr>key = ''sync-record-b'', timestamp = 2, pageSeriesKey = Some ''B''\<rparr>,
                            \<lparr>key = ''sync-record-c'', timestamp = 3, pageSeriesKey = None\<rparr>],
       items = [(''sync-record-b'', 20), (''sync-record-c'', 30)]\<rparr>)"
  using clearPageSeries_group_eviction [of no_faults
      "\<lambda>p. case p ''path'' of None \<Rightarrow> '''' | Some v \<Rightarrow> v"
      "[''path'' \<mapsto> ''A'', ''next_page'' \<mapsto> ''2'']" "''A''"
      "\<lparr>records_list = Some [\<lparr>key = ''sync-record-a'', timestamp = 1, pageSeriesKey = Some ''A''\<rparr>,
                            \<lparr>key = ''sync-record-b'', timestamp = 2, pageSeriesKey = Some ''B''\<rparr>,
                            \<lparr>key = ''sync-record-c'', timestamp = 3, pageSeriesKey = None\<rparr>],
       items = [(''sync-record-a'', 10::nat), (''sync-record-b'', 20), (''sync-record-c'', 30)]\<rparr>"
      None]
  by (simp add: no_faults_def omit_def clearPageSeries_def getAll_def lf_getRecords_def
      pickPageSeries_def lodash_filter_def difference_def removeRecordsByList_def
      lf_removeItem_def lf_setRecords_def RECORDS_LIST_KEY_def)

text \<open>
  C7, as the claim states it, fails: on a store where \<open>records-list\<close> was never set,
  \<open>getAll\<close> is fulfilled with the store's \<open>null\<close>, not with an empty sequence.
\<close>

theorem getAll_absent_counterexample:
  "fst (getAll no_faults \<lparr>records_list = None, items = [] :: (string \<times> nat) list\<rparr>)
     \<noteq> Resolved (Some [])"
  by (simp add: getAll_def lf_getRecords_def no_faults_def)

text \<open>
  C7, amended. When the store read succeeds, \<open>getAll\<close> is fulfilled with the value stored
  under \<open>records-list\<close>, which is \<open>null\<close> when the index was never set, and leaves the store
  unchanged. The readers built on it, \<open>getAllExcluding\<close> and \<open>dropOlderThan\<close>, turn that
  \<open>null\<close> into empty sequences.
\<close>

theorem getAll_returns_stored_value:
  assumes "\<not> flt (GetItem RECORDS_LIST_KEY)"
  shows "getAll flt s = (Resolved (records_list s), s) \<and>
         (records_list s = None \<longrightarrow>
            fst (getAll flt s) = Resolved None \<and>
            fst (getAllExcluding flt k s) = Resolved [] \<and>
            fst (dropOlderThan flt now L s) =
              Resolved \<lparr>removedRecords = [], retainedRecords = []\<rparr>)"
  using assms
  by (simp add: getAll_ok getAllExcluding_ok dropOlderThan_ok dropElders_null index_of_def)

theorem getAll_returns_stored_value_witness:
  "\<not> no_faults (GetItem RECORDS_LIST_KEY) \<and>
   getAll no_faults \<lparr>records_list = None, items = [(''sync-record-a'', 1::nat)]\<rparr> =
     (Resolved None, \<lparr>records_list = None, items = [(''sync-record-a'', 1::nat)]\<rparr>) \<and>
   fst (getAllExcluding no_faults ''k'' \<lparr>records_list = None, items = [(''sync-record-a'', 1::nat)]\<rparr>) =
     Resolved []"
  using getAll_returns_stored_value [of no_faults
      "\<lparr>records_list = None, items = [(''sync-record-a'', 1::nat)]\<rparr>" "''k''" "\<lambda>i. 0" 0]
  by (simp add: no_faults_def)

text \<open>
  C8. When the store read succeeds, \<open>getAllExcluding k\<close> is fulfilled with the index without
  the entries whose key is \<open>k\<close>: no entry of the result has key \<open>k\<close>, every other entry of
  the index is in it, in the order of the index, and the store is unchanged. When no entry
  has key \<open>k\<close> the result is the index.
\<close>

theorem getAllExcluding_exclusion:
  assumes "\<not> flt (GetItem RECORDS_LIST_KEY)"
  shows "\<exists>rs. getAllExcluding flt k s = (Resolved rs, s) \<and>
              rs = filter (\<lambda>r. key r \<noteq> k) (index_of s) \<and>
              (\<forall>r \<in> set rs. key r \<noteq> k) \<and>
              (\<forall>r \<in> set (index_of s). key r \<noteq> k \<longrightarrow> r \<in> set rs) \<and>
              subseq rs (index_of s) \<and>
              (k \<notin> key ` set (index_of s) \<longrightarrow> rs = index_of s)"
proof -
  let ?rs = "filter (\<lambda>r. key r \<noteq> k) (index_of s)"
  have "getAllExcluding flt k s = (Resolved ?rs, s)"
    using assms by (rule getAllExcluding_ok)
  moreover have "k \<notin> key ` set (index_of s) \<longrightarrow> ?rs = index_of s"
    by (auto intro: filter_True)
  ultimately show ?thesis
    by simp
qed

theorem getAllExcluding_exclusion_witness:
  "\<not> no_faults (GetItem RECORDS_LIST_KEY) \<and>
   fst (getAllExcluding no_faults ''a''
     \<lparr>records_list = Some [\<lparr>key = ''a'', timestamp = 1, pageSeriesKey = None\<rparr>,
                           \<lparr>key = ''b'', timestamp = 2, pageSeriesKey = Some ''g''\<rparr>],
      items = [(''a'', 1::nat)]\<rparr>) =
   Resolved [\<lparr>key = ''b'', timestamp = 2, pageSeriesKey = Some ''g''\<rparr>]"
  using getAllExcluding_exclusion [of no_faults "''a''"
     "\<lparr>records_list = Some [\<lparr>key = ''a'', timestamp = 1, pageSeriesKey = None\<rparr>,
                           \<lparr>key = ''b'', timestamp = 2, pageSeriesKey = Some ''g''\<rparr>],
      items = [(''a'', 1::nat)]\<rparr>"]
  by (simp add: no_faults_def index_of_def)

text \<open>
  C9. \<open>removeItem k\<close> changes no payload of the store, whether the store calls fail or not;
  when they succeed the index persisted is the index without the entries whose key is \<open>k\<close>.
\<close>

theorem removeItem_keeps_payloads:
  "items (snd (removeItem flt k s)) = items s \<and>
   (\<forall>k'. payload (snd (removeItem flt k s)) k' = payload s k') \<and>
   (\<not> flt (GetItem RECORDS_LIST_KEY) \<and> \<not> flt (SetItem RECORDS_LIST_KEY) \<longrightarrow>
      records_list (snd (removeItem flt k s)) = Some (filter (\<lambda>r. key r \<noteq> k) (index_of s)) \<and>
      fst (removeItem flt k s) = Resolved (filter (\<lambda>r. key r \<noteq> k) (index_of s)))"
  by (simp add: removeItem_items payload_def removeItem_ok)

theorem removeItem_keeps_payloads_witness:
  "\<not> no_faults (GetItem RECORDS_LIST_KEY) \<and> \<not> no_faults (SetItem RECORDS_LIST_KEY) \<and>
   snd (removeItem no_faults ''sync-record-a''
     \<lparr>records_list = Some [\<lparr>key = ''sync-record-a'', timestamp = 1, pageSeriesKey = None\<rparr>,
                           \<lparr>key = ''sync-record-b'', timestamp = 2, pageSeriesKey = None\<rparr>],
      items = [(''sync-record-a'', 10::nat), (''sync-record-b'', 20)]\<rparr>) =
     \<lparr>records_list = Some [\<lparr>key = ''sync-record-b'', timestamp = 2, pageSeriesKey = None\<rparr>],
      items = [(''sync-record-a'', 10::nat), (''sync-record-b'', 20)]\<rparr> \<and>
   payload (snd (removeItem no_faults ''sync-record-a''
     \<lparr>records_list = Some [\<lparr>key = ''sync-record-a'', timestamp = 1, pageSeriesKey = None\<rparr>,
                           \<lparr>key = ''sync-record-b'', timestamp = 2, pageSeriesKey = None\<rparr>],
      items = [(''sync-record-a'', 10::nat), (''sync-record-b'', 20)]\<rparr>)) ''sync-record-a'' = Some 10"
  using removeItem_keeps_payloads [of no_faults "''sync-record-a''"
     "\<lparr>records_list = Some [\<lparr>key = ''sync-record-a'', timestamp = 1, pageSeriesKey = None\<rparr>,
                           \<lparr>key = ''sync-record-b'', timestamp = 2, pageSeriesKey = None\<rparr>],
      items = [(''sync-record-a'', 10::nat), (''sync-record-b'', 20)]\<rparr>"]
  by (simp add: no_faults_def index_of_def payload_def)

text \<open>
  C10. \<open>addItem\<close> with a falsy \<open>pageSeriesKey\<close> (the empty string or \<open>null\<close>) is
  \<open>addItem\<close> with none: the entry persisted has no \<open>pageSeriesKey\<close>, \<open>pickPageSeries\<close>
  never selects it, and it is still in the index after any \<open>clearPageSeries\<close>. A truthy
  \<open>pageSeriesKey\<close> is stored in the entry.
\<close>

theorem addItem_falsy_group_not_stored:
  "(\<not> truthy g \<longrightarrow>
      addItem flt now k g s = addItem flt now k None s \<and>
      (\<forall>psk records. \<lparr>key = k, timestamp = now, pageSeriesKey = None\<rparr>
          \<notin> set (removedRecords (pickPageSeries psk records))) \<and>
      (\<not> flt (GetItem RECORDS_LIST_KEY) \<and> \<not> flt (SetItem RECORDS_LIST_KEY) \<longrightarrow>
         index_of (snd (addItem flt now k g s)) =
           filter (\<lambda>r. key r \<noteq> k) (index_of s) @ [\<lparr>key = k, timestamp = now, pageSeriesKey = None\<rparr>] \<and>
         \<lparr>key = k, timestamp = now, pageSeriesKey = None\<rparr> \<in>
           set (index_of (snd (clearPageSeries generateKey flt reqParams
                                 (snd (addItem flt now k g s))))))) \<and>
   (truthy g \<longrightarrow> \<not> flt (GetItem RECORDS_LIST_KEY) \<and> \<not> flt (SetItem RECORDS_LIST_KEY) \<longrightarrow>
      index_of (snd (addItem flt now k g s)) =
        filter (\<lambda>r. key r \<noteq> k) (index_of s) @ [\<lparr>key = k, timestamp = now, pageSeriesKey = g\<rparr>])"
proof -
  have 1: "\<lparr>key = k, timestamp = now, pageSeriesKey = None\<rparr> \<in>
           set (index_of (snd (clearPageSeries generateKey flt reqParams
                                 (snd (addItem flt now k g s)))))"
    if "\<not> truthy g" and g: "\<not> flt (GetItem RECORDS_LIST_KEY)" and s: "\<not> flt (SetItem RECORDS_LIST_KEY)"
    using that by (simp add: clearPageSeries_index [OF g s] addItem_index)
  have 2: "\<not> truthy g \<longrightarrow> addItem flt now k g s = addItem flt now k None s"
    by (simp add: addItem_def)
  have 3: "\<forall>psk records. \<lparr>key = k, timestamp = now, pageSeriesKey = None\<rparr>
          \<notin> set (removedRecords (pickPageSeries psk records))"
    by (simp add: pickPageSeries_ungrouped)
  show ?thesis
    using 1 2 3 by (simp add: addItem_index)
qed

theorem addItem_falsy_group_not_stored_witness:
  "\<not> truthy (Some '''') \<and> truthy (Some ''g1'') \<and>
   \<not> no_faults (GetItem RECORDS_LIST_KEY) \<and> \<not> no_faults (SetItem RECORDS_LIST_KEY) \<and>
   addItem no_faults 5 ''sync-record-a'' (Some '''')
      \<lparr>records_list = Some [\<lparr>key = ''sync-record-b'', timestamp = 2, pageSeriesKey = Some ''''\<rparr>],
       items = [(''sync-record-a'', 10::nat)]\<rparr> =
     (Resolved [\<lparr>key = ''sync-record-b'', timestamp = 2, pageSeriesKey = Some ''''\<rparr>,
                \<lparr>key = ''sync-record-a'', timestamp = 5, pageSeriesKey = None\<rparr>],
      \<lparr>records_list = Some [\<lparr>key = ''sync-record-b'', timestamp = 2, pageSeriesKey = Some ''''\<rparr>,
                            \<lparr>key = ''sync-record-a'', timestamp = 5, pageSeriesKey = None\<rparr>],
       items = [(''sync-record-a'', 10::nat)]\<rparr>) \<and>
   index_of (snd (clearPageSeries (\<lambda>p. '''') no_faults (Map.empty :: string \<rightharpoonup> string)
      (snd (addItem no_faults 5 ''sync-record-a'' (Some '''')
         \<lparr>records_list = Some [\<lparr>key = ''sync-record-b'', timestamp = 2, pageSeriesKey = Some ''''\<rparr>],
          items = [(''sync-record-a'', 10::nat)]\<rparr>)))) =
     [\<lparr>key = ''sync-record-a'', timestamp = 5, pageSeriesKey = None\<rparr>] \<and>
   index_of (snd (addItem no_faults 5 ''sync-record-a'' (Some ''g1'')
      \<lparr>records_list = Some [\<lparr>key = ''sync-record-b'', timestamp = 2, pageSeriesKey = Some ''''\<rparr>],
       items = [(''sync-record-a'', 10::nat)]\<rparr>)) =
     [\<lparr>key = ''sync-record-b'', timestamp = 2, pageSeriesKey = Some ''''\<rparr>,
      \<lparr>key = ''sync-record-a'', timestamp = 5, pageSeriesKey = Some ''g1''\<rparr>]"
  using addItem_falsy_group_not_stored [of "Some ''''" no_faults 5 "''sync-record-a''"
      "\<lparr>records_list = Some [\<lparr>key = ''sync-record-b'', timestamp = 2, pageSeriesKey = Some ''''\<rparr>],
       items = [(''sync-record-a'', 10::nat)]\<rparr>"
      "\<lambda>p. ''''" "Map.empty :: string \<rightharpoonup> string"]
    addItem_falsy_group_not_stored [of "Some ''g1''" no_faults 5 "''sync-record-a''"
      "\<lparr>records_list = Some [\<lparr>key = ''sync-record-b'', timestamp = 2, pageSeriesKey = Some ''''\<rparr>],
       items = [(''sync-record-a'', 10::nat)]\<rparr>"
      "\<lambda>p. ''''" "Map.empty :: string \<rightharpoonup> string"]
  by (simp add: no_faults_def index_of_def addItem_def getAllExcluding_def getAll_def
      lf_getRecords_def lf_setRecords_def dropMatches_def lodash_filter_def negate_def
      matchesProperty_key_def clearPageSeries_def pickPageSeries_def difference_def
      removeRecordsByList_def lf_removeItem_def RECORDS_LIST_KEY_def omit_def)

end
